theory Spec2Isabelle
  imports Complex_Main
begin

section \<open>Values, dictionaries, paths\<close>

text \<open>
  The ledger of \<^verbatim>\<open>core/pipeline.py\<close> is a Python \<^verbatim>\<open>Dict[str, Any]\<close> that is written
  with \<^verbatim>\<open>json.dumps\<close> and read with \<^verbatim>\<open>json.loads\<close>, so its values are JSON values.
  A Python dictionary keeps insertion order; it is modelled as an association list.
  A string is the list of the bytes of its UTF-8 encoding.
\<close>

datatype json =
    JNull
  | JBool bool
  | JNum rat
  | JStr string
  | JArr "json list"
  | JObj "(string \<times> json) list"

type_synonym job_id = string
type_synonym path = string
type_synonym fields = "(string \<times> json) list"
type_synonym ledger = "(job_id \<times> fields) list"

text \<open>
  Exceptions. \<open>ProviderError\<close> stands for whatever \<^verbatim>\<open>Exception\<close> a provider call raises
  (\<^verbatim>\<open>raise_for_status\<close>, transport errors), \<open>OSError\<close> for what writing a file raises;
  the others are raised by Python itself. All of them are instances of \<^verbatim>\<open>Exception\<close>,
  which is what the two \<^verbatim>\<open>except\<close> clauses of the pipeline catch.
\<close>

datatype exn =
    ProviderError string
  | OSError string
  | KeyError string
  | TypeError string
  | AttributeError string
  | ValueError string
  | OverflowError string
  | JSONDecodeError string

text \<open>\<^verbatim>\<open>d[k] = v\<close>: an existing key keeps its position, a new key goes last.\<close>

fun dict_set :: "'k \<Rightarrow> 'v \<Rightarrow> ('k \<times> 'v) list \<Rightarrow> ('k \<times> 'v) list" where
  "dict_set k v [] = [(k, v)]"
| "dict_set k v ((k', v') # rest) =
     (if k' = k then (k, v) # rest else (k', v') # dict_set k v rest)"

text \<open>\<^verbatim>\<open>d.get(k, default)\<close>; \<^verbatim>\<open>d.get(k)\<close> is \<open>dict_get d k JNull\<close>.\<close>

definition dict_get :: "fields \<Rightarrow> string \<Rightarrow> json \<Rightarrow> json" where
  "dict_get d k dflt = (case map_of d k of None \<Rightarrow> dflt | Some v \<Rightarrow> v)"

text \<open>
  \<^verbatim>\<open>x in {"a", "b"}\<close> hashes \<open>x\<close>: a list or a dict raises \<^verbatim>\<open>TypeError\<close>, any other
  value is compared with the members.
\<close>

fun hashable :: "json \<Rightarrow> bool" where
  "hashable (JArr _) = False"
| "hashable (JObj _) = False"
| "hashable _ = True"

definition py_in :: "json \<Rightarrow> string list \<Rightarrow> exn + bool" where
  "py_in v members =
     (if hashable v then Inr (v \<in> set (map JStr members))
      else Inl (TypeError ''unhashable type''))"

text \<open>\<^verbatim>\<open>str.startswith\<close>.\<close>

definition startswith :: "string \<Rightarrow> string \<Rightarrow> bool" where
  "startswith s p = (take (length p) s = p)"

text \<open>
  A \<^verbatim>\<open>Path\<close> is modelled by its string. \<^verbatim>\<open>Path.name\<close> is the last component and
  \<^verbatim>\<open>Path.suffix\<close> the part of the name from its last dot, when that dot is neither
  the first nor the last character of the name (pathlib's definition).
\<close>

definition path_name :: "path \<Rightarrow> string" where
  "path_name p = rev (takeWhile (\<lambda>c. c \<noteq> CHR ''/'') (rev p))"

definition path_suffix :: "path \<Rightarrow> string" where
  "path_suffix p =
     (let name = path_name p;
          ext = rev (takeWhile (\<lambda>c. c \<noteq> CHR ''.'') (rev name))
      in if CHR ''.'' \<notin> set name \<or> ext = [] \<or> Suc (length ext) = length name
         then [] else CHR ''.'' # ext)"

section \<open>Collaborators and the state of the world\<close>

text \<open>
  The provider (\<^verbatim>\<open>AbstractTranscriptionProvider\<close>) is external. Its three operations are
  parameters: each takes the state \<open>'p\<close> of what is outside the pipeline (the remote
  service, what the provider object holds, the file system), returns either the
  exception it raises or its value, and the next state. The library functions the
  pipeline calls are parameters too:
  \<^item> \<open>resolve\<close> is \<^verbatim>\<open>Path.expanduser().resolve()\<close> and \<open>rglob\<close> is \<^verbatim>\<open>Path.rglob("*")\<close>, both
    taken to succeed;
  \<^item> \<open>as_path\<close> is the constructor \<^verbatim>\<open>Path(s)\<close>, which normalises the string it is given;
  \<^item> \<open>unicode_lower\<close> is \<^verbatim>\<open>str.lower\<close> on the strings that are not pure ASCII;
  \<^item> \<open>json_dumps\<close> and \<open>json_loads\<close> are \<^verbatim>\<open>json.dumps(_, indent=2)\<close> and \<^verbatim>\<open>json.loads\<close>,
    between ledgers and the content \<open>'f\<close> of a file;
  \<^item> \<open>write_text content old p\<close> is the attempt of \<^verbatim>\<open>_save_jobs\<close> to replace the file,
    whose content is \<open>old\<close>, by \<open>content\<close>, in the outside state \<open>p\<close>: \<open>None\<close> when the
    file was written, \<open>Some (e, left)\<close> when \<open>e\<close> was raised and the file is left as \<open>left\<close>;
  \<^item> \<open>sleep_limit\<close> is the longest time \<^verbatim>\<open>time.sleep\<close> accepts on the platform.
\<close>

record ('p, 'f) env =
  submit_job :: "path \<Rightarrow> string \<Rightarrow> 'p \<Rightarrow> (exn + job_id) \<times> 'p"
  job_status :: "job_id \<Rightarrow> 'p \<Rightarrow> (exn + fields) \<times> 'p"
  fetch_result :: "job_id \<Rightarrow> path \<Rightarrow> 'p \<Rightarrow> (exn + path) \<times> 'p"
  resolve :: "path \<Rightarrow> path"
  rglob :: "path \<Rightarrow> path list"
  as_path :: "string \<Rightarrow> path"
  unicode_lower :: "string \<Rightarrow> string"
  json_dumps :: "ledger \<Rightarrow> 'f"
  json_loads :: "'f \<Rightarrow> exn + ledger"
  write_text :: "'f \<Rightarrow> 'f option \<Rightarrow> 'p \<Rightarrow> (exn \<times> 'f option) option"
  sleep_limit :: int

text \<open>
  \<^verbatim>\<open>str.lower\<close>: on a string of ASCII characters it maps \<^verbatim>\<open>A\<close>..\<^verbatim>\<open>Z\<close> to \<^verbatim>\<open>a\<close>..\<^verbatim>\<open>z\<close> and
  leaves the rest; on any other string it is the library's Unicode mapping.
\<close>

definition ascii :: "char \<Rightarrow> bool" where
  "ascii c = (of_char c < (128 :: nat))"

definition char_lower :: "char \<Rightarrow> char" where
  "char_lower c =
     (case map_of (zip ''ABCDEFGHIJKLMNOPQRSTUVWXYZ'' ''abcdefghijklmnopqrstuvwxyz'') c of
        None \<Rightarrow> c | Some d \<Rightarrow> d)"

definition lower :: "('p, 'f) env \<Rightarrow> string \<Rightarrow> string" where
  "lower env s = (if list_all ascii s then map char_lower s else unicode_lower env s)"

text \<open>\<^verbatim>\<open>state.lower()\<close> on a value that need not be a string.\<close>

fun py_lower :: "('p, 'f) env \<Rightarrow> json \<Rightarrow> exn + string" where
  "py_lower env (JStr s) = Inr (lower env s)"
| "py_lower env _ = Inl (AttributeError ''lower'')"

text \<open>One record per \<^verbatim>\<open>logger\<close> call of the pipeline, with the arguments of its format.\<close>

datatype log_record =
    Submitted string job_id
  | FailedToSubmit string exn
  | NoUnfinishedJobs
  | JobState job_id json
  | Downloaded job_id path
  | FailedToFetch job_id exn

text \<open>
  What the pipeline does to the outside, in order: every provider call with its outcome,
  every write of the ledger file with the content written, every failed attempt to
  write it, every sleep, every log record.
\<close>

datatype 'f event =
    SubmitJob path string "exn + job_id"
  | JobStatus job_id "exn + fields"
  | FetchResult job_id path "exn + path"
  | WriteLedger 'f
  | WriteFailed 'f exn
  | Sleep int
  | Log log_record

text \<open>
  \<open>jobs\<close> is \<^verbatim>\<open>self._jobs\<close>, \<open>disk\<close> the content of the file at \<^verbatim>\<open>self.job_log_path\<close>
  (\<open>None\<close> when the file does not exist), \<open>prov\<close> the outside state, \<open>now\<close> the clock
  that \<^verbatim>\<open>time.time()\<close> reads, \<open>trace\<close> the events so far, oldest first.
\<close>

record ('p, 'f) world =
  jobs :: ledger
  disk :: "'f option"
  prov :: 'p
  now :: rat
  trace :: "'f event list"

definition emit :: "'f event \<Rightarrow> ('p, 'f) world \<Rightarrow> ('p, 'f) world" where
  "emit e w = w\<lparr>trace := trace w @ [e]\<rparr>"

section \<open>The job ledger\<close>

text \<open>
  \<^verbatim>\<open>
  def _load_jobs(self):
      if self.job_log_path.exists():
          return json.loads(self.job_log_path.read_text("utf-8"))
      return {}

  def _save_jobs(self):
      self.job_log_path.write_text(json.dumps(self._jobs, indent=2), "utf-8")
  \<close>
  The result of \<open>save_jobs\<close> is the exception that \<^verbatim>\<open>_save_jobs\<close> raises, if any.
\<close>

definition load_jobs :: "('p, 'f) env \<Rightarrow> 'f option \<Rightarrow> exn + ledger" where
  "load_jobs env file = (case file of None \<Rightarrow> Inr [] | Some text \<Rightarrow> json_loads env text)"

definition save_jobs :: "('p, 'f) env \<Rightarrow> ('p, 'f) world \<Rightarrow> exn option \<times> ('p, 'f) world" where
  "save_jobs env w =
     (let content = json_dumps env (jobs w)
      in case write_text env content (disk w) (prov w) of
           None \<Rightarrow> (None, emit (WriteLedger content) (w\<lparr>disk := Some content\<rparr>))
         | Some (e, left) \<Rightarrow> (Some e, emit (WriteFailed content e) (w\<lparr>disk := left\<rparr>)))"

section \<open>Submission\<close>

text \<open>
  \<^verbatim>\<open>
  def submit_single(self, media, language="en-US"):
      media = media.expanduser().resolve()
      job_id = self.provider.submit_job(media, language=language)
      self._jobs[job_id] = {"file": str(media), "submitted": time.time(),
                            "language": language, "state": "submitted"}
      self._save_jobs()
      logger.info("Submitted %s -> job %s", media.name, job_id)
      return job_id
  \<close>
\<close>

definition new_record :: "path \<Rightarrow> rat \<Rightarrow> string \<Rightarrow> fields" where
  "new_record media t language =
     [(''file'', JStr media), (''submitted'', JNum t),
      (''language'', JStr language), (''state'', JStr ''submitted'')]"

definition submit_single ::
  "('p, 'f) env \<Rightarrow> path \<Rightarrow> string \<Rightarrow> ('p, 'f) world \<Rightarrow> (exn + job_id) \<times> ('p, 'f) world" where
  "submit_single env media language w =
     (let media' = resolve env media;
          (r, p') = submit_job env media' language (prov w);
          w1 = emit (SubmitJob media' language r) (w\<lparr>prov := p'\<rparr>)
      in case r of
           Inl e \<Rightarrow> (Inl e, w1)
         | Inr job_id \<Rightarrow>
             (let w2 = w1\<lparr>jobs := dict_set job_id (new_record media' (now w1) language) (jobs w1)\<rparr>
              in case save_jobs env w2 of
                   (Some e, w3) \<Rightarrow> (Inl e, w3)
                 | (None, w3) \<Rightarrow>
                     (Inr job_id, emit (Log (Submitted (path_name media') job_id)) w3)))"

text \<open>
  \<^verbatim>\<open>
  def submit_batch(self, directory, language="en-US"):
      directory = directory.expanduser().resolve()
      jobs = []
      for path in directory.rglob("*"):
          if path.suffix.lower() in {".mp4", ".wav", ".mp3", ".mkv", ".flac"}:
              try:
                  jobs.append(self.submit_single(path, language))
              except Exception as exc:
                  logger.error("Failed to submit %s: %s", path.name, exc)
      return jobs
  \<close>
  The loop body is the only place of \<^verbatim>\<open>submit_batch\<close> where a call can raise, and it is
  inside the \<^verbatim>\<open>try\<close>: the model's result has no exception alternative.
\<close>

definition supported :: "('p, 'f) env \<Rightarrow> path \<Rightarrow> bool" where
  "supported env p =
     (lower env (path_suffix p) \<in> set [''.mp4'', ''.wav'', ''.mp3'', ''.mkv'', ''.flac''])"

fun submit_batch_loop ::
  "('p, 'f) env \<Rightarrow> string \<Rightarrow> path list \<Rightarrow> job_id list \<Rightarrow> ('p, 'f) world
     \<Rightarrow> job_id list \<times> ('p, 'f) world" where
  "submit_batch_loop env language [] ids w = (ids, w)"
| "submit_batch_loop env language (p # ps) ids w =
     (if supported env p then
        (case submit_single env p language w of
           (Inr job_id, w') \<Rightarrow> submit_batch_loop env language ps (ids @ [job_id]) w'
         | (Inl exc, w') \<Rightarrow>
             submit_batch_loop env language ps ids (emit (Log (FailedToSubmit (path_name p) exc)) w'))
      else submit_batch_loop env language ps ids w)"

definition submit_batch ::
  "('p, 'f) env \<Rightarrow> path \<Rightarrow> string \<Rightarrow> ('p, 'f) world \<Rightarrow> job_id list \<times> ('p, 'f) world" where
  "submit_batch env directory language w =
     submit_batch_loop env language (rglob env (resolve env directory)) [] w"

section \<open>Polling\<close>

text \<open>
  \<^verbatim>\<open>
  def _download_result(self, job_id):
      dest = Path(f"{job_id}_transcript.json")
      try:
          path = self.provider.fetch_result(job_id, dest)
          self._jobs[job_id]["result"] = str(path)
          logger.info("Downloaded result for job %s -> %s", job_id, path)
      except Exception as exc:
          logger.error("Failed to fetch result for %s: %s", job_id, exc)
  \<close>
  The \<^verbatim>\<open>KeyError\<close> of \<^verbatim>\<open>self._jobs[job_id]\<close> would be raised inside the \<^verbatim>\<open>try\<close> as well.
\<close>

definition download_result :: "('p, 'f) env \<Rightarrow> job_id \<Rightarrow> ('p, 'f) world \<Rightarrow> ('p, 'f) world" where
  "download_result env job_id w =
     (let dest = as_path env (job_id @ ''_transcript.json'');
          (r, p') = fetch_result env job_id dest (prov w);
          w1 = emit (FetchResult job_id dest r) (w\<lparr>prov := p'\<rparr>)
      in case r of
           Inl exc \<Rightarrow> emit (Log (FailedToFetch job_id exc)) w1
         | Inr path \<Rightarrow>
             (case map_of (jobs w1) job_id of
                None \<Rightarrow> emit (Log (FailedToFetch job_id (KeyError job_id))) w1
              | Some meta \<Rightarrow>
                  emit (Log (Downloaded job_id path))
                    (w1\<lparr>jobs := dict_set job_id (dict_set ''result'' (JStr path) meta) (jobs w1)\<rparr>)))"

text \<open>
  \<^verbatim>\<open>
  unfinished = {jid: meta for jid, meta in self._jobs.items()
                if meta.get("state") not in {"succeeded", "failed"}}
  \<close>
  Only the keys of \<^verbatim>\<open>unfinished\<close> are ever read, so it is modelled by its list of keys,
  in insertion order and without repetition.
\<close>

definition keys_add :: "job_id \<Rightarrow> job_id list \<Rightarrow> job_id list" where
  "keys_add k ks = (if k \<in> set ks then ks else ks @ [k])"

fun unfinished_of :: "ledger \<Rightarrow> job_id list \<Rightarrow> exn + job_id list" where
  "unfinished_of [] acc = Inr acc"
| "unfinished_of ((jid, meta) # rest) acc =
     (case py_in (dict_get meta ''state'' JNull) [''succeeded'', ''failed''] of
        Inl e \<Rightarrow> Inl e
      | Inr terminal \<Rightarrow> unfinished_of rest (if terminal then acc else keys_add jid acc))"

text \<open>
  The body of the \<^verbatim>\<open>for\<close> loop, for one job id:
  \<^verbatim>\<open>
  status = self.provider.job_status(job_id)
  state = status.get("state", "unknown")
  self._jobs[job_id]["state"] = state
  logger.info("Job %s -> %s", job_id, state)
  if state in {"Succeeded", "Failed", "succeeded", "failed"}:
      if state.lower().startswith("succ"):
          self._download_result(job_id)
      unfinished.pop(job_id)
      self._save_jobs()
  \<close>
  The result is the exception that leaves \<^verbatim>\<open>poll\<close>, or the keys of \<^verbatim>\<open>unfinished\<close>
  after the step.
\<close>

definition poll_job ::
  "('p, 'f) env \<Rightarrow> job_id \<Rightarrow> job_id list \<Rightarrow> ('p, 'f) world
     \<Rightarrow> (exn + job_id list) \<times> ('p, 'f) world" where
  "poll_job env job_id unfinished w =
     (let (r, p') = job_status env job_id (prov w);
          w1 = emit (JobStatus job_id r) (w\<lparr>prov := p'\<rparr>)
      in case r of
           Inl e \<Rightarrow> (Inl e, w1)
         | Inr status \<Rightarrow>
             (let state = dict_get status ''state'' (JStr ''unknown'')
              in case map_of (jobs w1) job_id of
                   None \<Rightarrow> (Inl (KeyError job_id), w1)
                 | Some meta \<Rightarrow>
                     (let w2 = w1\<lparr>jobs := dict_set job_id (dict_set ''state'' state meta) (jobs w1)\<rparr>;
                          w3 = emit (Log (JobState job_id state)) w2
                      in case py_in state [''Succeeded'', ''Failed'', ''succeeded'', ''failed''] of
                           Inl e \<Rightarrow> (Inl e, w3)
                         | Inr False \<Rightarrow> (Inr unfinished, w3)
                         | Inr True \<Rightarrow>
                             (case py_lower env state of
                                Inl e \<Rightarrow> (Inl e, w3)
                              | Inr s \<Rightarrow>
                                  (let w4 = (if startswith s ''succ''
                                             then download_result env job_id w3 else w3)
                                   in if job_id \<in> set unfinished
                                      then (case save_jobs env w4 of
                                              (Some e, w5) \<Rightarrow> (Inl e, w5)
                                            | (None, w5) \<Rightarrow> (Inr (removeAll job_id unfinished), w5))
                                      else (Inl (KeyError job_id), w4))))))"

text \<open>\<^verbatim>\<open>for job_id in list(unfinished): ...\<close> over the snapshot \<open>js\<close> of the keys.\<close>

fun sweep ::
  "('p, 'f) env \<Rightarrow> job_id list \<Rightarrow> job_id list \<Rightarrow> ('p, 'f) world
     \<Rightarrow> (exn + job_id list) \<times> ('p, 'f) world" where
  "sweep env [] unfinished w = (Inr unfinished, w)"
| "sweep env (j # js) unfinished w =
     (case poll_job env j unfinished w of
        (Inl e, w') \<Rightarrow> (Inl e, w')
      | (Inr unfinished', w') \<Rightarrow> sweep env js unfinished' w')"

text \<open>
  \<^verbatim>\<open>time.sleep\<close> converts its argument first, which raises \<^verbatim>\<open>OverflowError\<close> when it is
  too large in absolute value, and then raises \<^verbatim>\<open>ValueError\<close> on a negative length.
\<close>

definition sleep :: "('p, 'f) env \<Rightarrow> int \<Rightarrow> ('p, 'f) world \<Rightarrow> exn + ('p, 'f) world" where
  "sleep env secs w =
     (if sleep_limit env < \<bar>secs\<bar> then Inl (OverflowError ''timestamp too large'')
      else if secs < 0 then Inl (ValueError ''sleep length must be non-negative'')
      else Inr (emit (Sleep secs) (w\<lparr>now := now w + of_int secs\<rparr>)))"

text \<open>
  \<^verbatim>\<open>
  while unfinished:
      for job_id in list(unfinished): ...
      if unfinished:
          time.sleep(interval_sec)
  \<close>
  The loop has no bound of its own. The model counts sweeps: \<open>fuel\<close> is the number of
  sweeps it may still run. The first component of the result is \<open>None\<close> when the fuel
  ran out with jobs still pending (the world is the one reached so far),
  \<open>Some (Inl e)\<close> when \<open>e\<close> was raised, \<open>Some (Inr ())\<close> when the loop ended.
\<close>

fun poll_while ::
  "nat \<Rightarrow> ('p, 'f) env \<Rightarrow> int \<Rightarrow> job_id list \<Rightarrow> ('p, 'f) world
     \<Rightarrow> (exn + unit) option \<times> ('p, 'f) world" where
  "poll_while fuel env interval_sec [] w = (Some (Inr ()), w)"
| "poll_while 0 env interval_sec (j # js) w = (None, w)"
| "poll_while (Suc fuel) env interval_sec (j # js) w =
     (case sweep env (j # js) (j # js) w of
        (Inl e, w') \<Rightarrow> (Some (Inl e), w')
      | (Inr unfinished', w') \<Rightarrow>
          (if unfinished' \<noteq> [] then
             (case sleep env interval_sec w' of
                Inl e \<Rightarrow> (Some (Inl e), w')
              | Inr w'' \<Rightarrow> poll_while fuel env interval_sec unfinished' w'')
           else poll_while fuel env interval_sec unfinished' w'))"

text \<open>
  What the \<^verbatim>\<open>while\<close> loop does once its current sweep has ended with the outcome \<open>sw\<close>:
  it passes the exception on, or sleeps if jobs are pending and tests its condition again.
\<close>

definition after_sweep ::
  "nat \<Rightarrow> ('p, 'f) env \<Rightarrow> int \<Rightarrow> (exn + job_id list) \<times> ('p, 'f) world
     \<Rightarrow> (exn + unit) option \<times> ('p, 'f) world" where
  "after_sweep fuel env interval_sec sw =
     (case sw of
        (Inl e, w') \<Rightarrow> (Some (Inl e), w')
      | (Inr unfinished', w') \<Rightarrow>
          (if unfinished' \<noteq> [] then
             (case sleep env interval_sec w' of
                Inl e \<Rightarrow> (Some (Inl e), w')
              | Inr w'' \<Rightarrow> poll_while fuel env interval_sec unfinished' w'')
           else poll_while fuel env interval_sec unfinished' w'))"

text \<open>
  \<^verbatim>\<open>
  def poll(self, interval_sec=30):
      unfinished = {...}
      if not unfinished:
          logger.info("No unfinished jobs.")
          return
      while unfinished: ...
  \<close>
\<close>

definition poll ::
  "nat \<Rightarrow> ('p, 'f) env \<Rightarrow> int \<Rightarrow> ('p, 'f) world \<Rightarrow> (exn + unit) option \<times> ('p, 'f) world" where
  "poll fuel env interval_sec w =
     (case unfinished_of (jobs w) [] of
        Inl e \<Rightarrow> (Some (Inl e), w)
      | Inr unfinished \<Rightarrow>
          (if unfinished = [] then (Some (Inr ()), emit (Log NoUnfinishedJobs) w)
           else poll_while fuel env interval_sec unfinished w))"

text \<open>
  Several invocations of \<^verbatim>\<open>poll\<close> on the same pipeline, each with its fuel and its
  interval. An invocation that raises, or that is cut off while jobs are pending, leaves
  the pipeline in the state it had reached, and the next invocation starts from there.
\<close>

fun polls :: "('p, 'f) env \<Rightarrow> (nat \<times> int) list \<Rightarrow> ('p, 'f) world \<Rightarrow> ('p, 'f) world" where
  "polls env [] w = w"
| "polls env ((fuel, interval_sec) # rest) w = polls env rest (snd (poll fuel env interval_sec w))"

section \<open>The Azure provider's status query\<close>

text \<open>
  \<^verbatim>\<open>
  def job_status(self, job_id):
      url = f"{self._base_url}/transcriptions/{job_id}"
      r = requests.get(url, headers=self._headers)
      r.raise_for_status()
      data = r.json()
      return {"state": data.get("status"), "raw": data}
  \<close>
  \<open>http_get\<close> is the request with \<^verbatim>\<open>raise_for_status\<close> and \<^verbatim>\<open>r.json()\<close>: the exception
  raised, or the JSON object of the response.
\<close>

definition azure_job_status ::
  "(job_id \<Rightarrow> 'p \<Rightarrow> (exn + fields) \<times> 'p) \<Rightarrow> job_id \<Rightarrow> 'p \<Rightarrow> (exn + fields) \<times> 'p" where
  "azure_job_status http_get job_id p =
     (case http_get job_id p of
        (Inl e, p') \<Rightarrow> (Inl e, p')
      | (Inr data, p') \<Rightarrow>
          (Inr [(''state'', dict_get data ''status'' JNull), (''raw'', JObj data)], p'))"

section \<open>Observations on a trace\<close>

definition ledger_writes :: "'f event list \<Rightarrow> 'f list" where
  "ledger_writes t = concat (map (\<lambda>e. case e of WriteLedger text \<Rightarrow> [text] | _ \<Rightarrow> []) t)"

definition write_failures :: "'f event list \<Rightarrow> exn list" where
  "write_failures t = concat (map (\<lambda>e. case e of WriteFailed text x \<Rightarrow> [x] | _ \<Rightarrow> []) t)"

definition submit_calls :: "'f event list \<Rightarrow> path list" where
  "submit_calls t = concat (map (\<lambda>e. case e of SubmitJob p l r \<Rightarrow> [p] | _ \<Rightarrow> []) t)"

definition issued_ids :: "'f event list \<Rightarrow> job_id list" where
  "issued_ids t = concat (map (\<lambda>e. case e of SubmitJob p l (Inr j) \<Rightarrow> [j] | _ \<Rightarrow> []) t)"

text \<open>
  The outcomes of the calls of \<^verbatim>\<open>submit_single\<close>, in order. Each call ends in exactly one
  of three events: \<^verbatim>\<open>submit_job\<close> raised, the ledger write raised, or the submission was
  logged on the way out with the id that is returned.
\<close>

definition submission_results :: "'f event list \<Rightarrow> (exn + job_id) list" where
  "submission_results t =
     concat (map (\<lambda>e. case e of SubmitJob p l (Inl x) \<Rightarrow> [Inl x] | WriteFailed text x \<Rightarrow> [Inl x]
                        | Log (Submitted name j) \<Rightarrow> [Inr j] | _ \<Rightarrow> []) t)"

definition returned_ids :: "(exn + job_id) list \<Rightarrow> job_id list" where
  "returned_ids rs = concat (map (\<lambda>r. case r of Inl x \<Rightarrow> [] | Inr j \<Rightarrow> [j]) rs)"

text \<open>The failures among the outcomes of a list of files, under the names of the files.\<close>

definition failures_of :: "(path \<times> (exn + job_id)) list \<Rightarrow> (string \<times> exn) list" where
  "failures_of prs =
     concat (map (\<lambda>(p, r). case r of Inl x \<Rightarrow> [(path_name p, x)] | Inr j \<Rightarrow> []) prs)"

definition logged_submit_failures :: "'f event list \<Rightarrow> (string \<times> exn) list" where
  "logged_submit_failures t =
     concat (map (\<lambda>e. case e of Log (FailedToSubmit name x) \<Rightarrow> [(name, x)] | _ \<Rightarrow> []) t)"

text \<open>The provider calls about one job: its status queries and its downloads.\<close>

fun about_job :: "job_id \<Rightarrow> 'f event \<Rightarrow> bool" where
  "about_job j (JobStatus k r) = (k = j)"
| "about_job j (FetchResult k dest r) = (k = j)"
| "about_job j _ = False"

definition provider_calls_about :: "job_id \<Rightarrow> 'f event list \<Rightarrow> 'f event list" where
  "provider_calls_about j t = filter (about_job j) t"

section \<open>Scripted environments\<close>

text \<open>
  A provider whose state counts the calls made to it. It rejects \<^verbatim>\<open>bad.wav\<close>; it reports
  \<^verbatim>\<open>j2\<close> without a state, \<^verbatim>\<open>j3\<close> as running on the first call and as failed afterwards,
  every other job as succeeded; the download of \<^verbatim>\<open>j5\<close> fails. The content of the
  ledger file is represented by the document it holds, and writing it never fails.
\<close>

definition demo_status :: "job_id \<Rightarrow> nat \<Rightarrow> (exn + fields) \<times> nat" where
  "demo_status j n =
     (if j = ''j2'' then Inr [(''raw'', JNull)]
      else if j = ''j3'' then Inr [(''state'', JStr (if n = 0 then ''running'' else ''failed''))]
      else Inr [(''state'', JStr ''succeeded'')],
      Suc n)"

definition demo_env :: "(nat, ledger) env" where
  "demo_env =
     \<lparr>submit_job = (\<lambda>p language n.
        (if path_name p = ''bad.wav'' then Inl (ProviderError ''rejected'')
         else Inr (''job-'' @ path_name p), Suc n)),
      job_status = demo_status,
      fetch_result = (\<lambda>j dest n.
        (if j = ''j5'' then Inl (ProviderError ''no blob'') else Inr dest, Suc n)),
      resolve = (\<lambda>p. p),
      rglob = (\<lambda>d. [d @ ''/a.mp4'', d @ ''/notes.txt'', d @ ''/bad.wav'', d @ ''/B.MP3'']),
      as_path = (\<lambda>s. s),
      unicode_lower = (\<lambda>s. s),
      json_dumps = (\<lambda>l. l),
      json_loads = Inr,
      write_text = (\<lambda>content old n. None),
      sleep_limit = 9223372036\<rparr>"


text \<open>A directory in which \<^verbatim>\<open>link.mp3\<close> is a symbolic link to \<^verbatim>\<open>readme.txt\<close>.\<close>

definition symlink_env :: "(nat, ledger) env" where
  "symlink_env =
     demo_env\<lparr>resolve := (\<lambda>p. if p = ''/m/link.mp3'' then ''/m/readme.txt'' else p),
              rglob := (\<lambda>d. [d @ ''/link.mp3'', d @ ''/readme.txt''])\<rparr>"

text \<open>The Azure provider answering every status request with \<^verbatim>\<open>{"status": "Succeeded"}\<close>.\<close>

definition azure_env :: "(nat, ledger) env" where
  "azure_env =
     demo_env\<lparr>job_status :=
       azure_job_status (\<lambda>j n. (Inr [(''status'', JStr ''Succeeded'')], Suc n))\<rparr>"

text \<open>A provider that reports a job as \<^verbatim>\<open>Failed\<close> and, asked again, as \<^verbatim>\<open>running\<close>.\<close>

definition relapsing_env :: "(nat, ledger) env" where
  "relapsing_env =
     demo_env\<lparr>job_status :=
       (\<lambda>j n. (Inr [(''state'', JStr (if n = 0 then ''Failed'' else ''running''))], Suc n))\<rparr>"

definition world0 :: "ledger \<Rightarrow> (nat, ledger) world" where
  "world0 l = \<lparr>jobs = l, disk = None, prov = 0, now = 0, trace = []\<rparr>"

section \<open>Dictionaries, traces and the ledger file\<close>

lemma emit_simps [simp]:
  "jobs (emit e w) = jobs w" "disk (emit e w) = disk w" "prov (emit e w) = prov w"
  "now (emit e w) = now w" "trace (emit e w) = trace w @ [e]"
  by (simp_all add: emit_def)

lemma save_jobs_keeps [simp]:
  "jobs (snd (save_jobs env w)) = jobs w" "prov (snd (save_jobs env w)) = prov w"
  "now (snd (save_jobs env w)) = now w"
  by (simp_all add: save_jobs_def Let_def split: option.splits prod.splits)

lemma save_jobs_written:
  assumes "write_text env (json_dumps env (jobs w)) (disk w) (prov w) = None"
  shows "save_jobs env w =
           (None, w\<lparr>disk := Some (json_dumps env (jobs w)),
                    trace := trace w @ [WriteLedger (json_dumps env (jobs w))]\<rparr>)"
  using assms by (simp add: save_jobs_def Let_def emit_def)

lemma save_jobs_failed:
  assumes "write_text env (json_dumps env (jobs w)) (disk w) (prov w) = Some (e, left)"
  shows "save_jobs env w =
           (Some e, w\<lparr>disk := left,
                      trace := trace w @ [WriteFailed (json_dumps env (jobs w)) e]\<rparr>)"
  using assms by (simp add: save_jobs_def Let_def emit_def)

lemma map_of_dict_set: "map_of (dict_set k v d) = (map_of d)(k \<mapsto> v)"
  by (induction d) (auto simp: fun_eq_iff)

lemma keys_dict_set:
  "map fst (dict_set k v d) = (if k \<in> set (map fst d) then map fst d else map fst d @ [k])"
  by (induction d) force+

lemma distinct_dict_set: "distinct (map fst d) \<Longrightarrow> distinct (map fst (dict_set k v d))"
  by (simp add: keys_dict_set)

lemma set_dict_set: "set (dict_set k v d) \<subseteq> insert (k, v) (set d)"
  by (induction d) (auto split: if_splits)

lemma in_dict_set: "(k, rec) \<in> set (dict_set j v d) \<Longrightarrow> (k, rec) \<in> set d \<or> rec = v"
  using set_dict_set [of j v d] by auto

lemma ledger_writes_simps [simp]:
  "ledger_writes [] = []"
  "ledger_writes (e # t) = (case e of WriteLedger x \<Rightarrow> [x] | _ \<Rightarrow> []) @ ledger_writes t"
  "ledger_writes (t @ u) = ledger_writes t @ ledger_writes u"
  by (simp_all add: ledger_writes_def)

lemmas demo_simps = demo_env_def demo_status_def world0_def

lemmas string_simps = lower_def char_lower_def ascii_def startswith_def

text \<open>
  Loading after a successful save is the codec's own round trip of the whole mapping:
  the pipeline adds nothing to it and takes nothing away. A missing file is the empty
  ledger.
\<close>

lemma load_after_save:
  assumes "write_text env (json_dumps env (jobs w)) (disk w) (prov w) = None"
  shows "load_jobs env (disk (snd (save_jobs env w))) = json_loads env (json_dumps env (jobs w))"
  by (simp add: save_jobs_written [OF assms] load_jobs_def)

lemma load_absent: "load_jobs env None = Inr []"
  by (simp add: load_jobs_def)

section \<open>Submitting one file\<close>

text \<open>
  \<^bold>\<open>C6\<close>. When the provider's \<^verbatim>\<open>submit_job\<close> raises, \<^verbatim>\<open>submit_single\<close> raises the same
  exception and leaves the ledger as it was, in memory and on disk: the only thing that
  happened is the provider call. When \<^verbatim>\<open>submit_job\<close> returns a job id, the ledger holds
  for it a record whose state is \<^verbatim>\<open>submitted\<close>; then the file is written with the new
  ledger and, the file written, that id is returned (the write comes before the last
  log record). Should the write itself raise, its exception is what \<^verbatim>\<open>submit_single\<close>
  raises.
\<close>

theorem submit_single_outcomes:
  "case submit_job env (resolve env media) language (prov w) of
     (Inl e, p') \<Rightarrow>
        submit_single env media language w =
          (Inl e, w\<lparr>prov := p', trace := trace w @ [SubmitJob (resolve env media) language (Inl e)]\<rparr>)
   | (Inr job_id, p') \<Rightarrow>
        (let (res, w') = submit_single env media language w;
             record = new_record (resolve env media) (now w) language
         in jobs w' = dict_set job_id record (jobs w)
            \<and> map_of (jobs w') job_id = Some record
            \<and> map_of record ''state'' = Some (JStr ''submitted'')
            \<and> (case write_text env (json_dumps env (jobs w')) (disk w) p' of
                  None \<Rightarrow>
                    res = Inr job_id
                    \<and> disk w' = Some (json_dumps env (jobs w'))
                    \<and> trace w' = trace w @ [SubmitJob (resolve env media) language (Inr job_id),
                                             WriteLedger (json_dumps env (jobs w')),
                                             Log (Submitted (path_name (resolve env media)) job_id)]
                | Some (e, left) \<Rightarrow>
                    res = Inl e
                    \<and> disk w' = left
                    \<and> trace w' = trace w @ [SubmitJob (resolve env media) language (Inr job_id),
                                             WriteFailed (json_dumps env (jobs w')) e]))"
  by (auto simp: submit_single_def save_jobs_def Let_def map_of_dict_set new_record_def emit_def
           split: prod.splits sum.splits option.splits)

theorem submit_single_outcomes_witness:
  "submit_single demo_env ''/m/bad.wav'' ''en-US'' (world0 []) =
     (Inl (ProviderError ''rejected''),
      \<lparr>jobs = [], disk = None, prov = 1, now = 0,
       trace = [SubmitJob ''/m/bad.wav'' ''en-US'' (Inl (ProviderError ''rejected''))]\<rparr>)
   \<and> fst (submit_single demo_env ''/m/a.mp4'' ''en-US'' (world0 [])) = Inr ''job-a.mp4''
   \<and> disk (snd (submit_single demo_env ''/m/a.mp4'' ''en-US'' (world0 []))) =
       Some [(''job-a.mp4'', [(''file'', JStr ''/m/a.mp4''), (''submitted'', JNum 0),
                              (''language'', JStr ''en-US''), (''state'', JStr ''submitted'')])]"
  using submit_single_outcomes [of demo_env "''/m/bad.wav''" "''en-US''" "world0 []"]
        submit_single_outcomes [of demo_env "''/m/a.mp4''" "''en-US''" "world0 []"]
  by (simp add: demo_simps path_name_def new_record_def Let_def split_beta)

section \<open>One job of a sweep\<close>

text \<open>
  \<^bold>\<open>C10\<close>. When the dictionary returned by \<^verbatim>\<open>job_status\<close> has no \<^verbatim>\<open>state\<close> key, the
  ledger entry's state becomes the string \<^verbatim>\<open>unknown\<close> and nothing else happens: the job
  stays in the pending set, there is no download, and the ledger file is not written.
\<close>

theorem missing_state_is_unknown:
  assumes "job_status env j (prov w) = (Inr status, p')"
      and "map_of status ''state'' = None"
      and "map_of (jobs w) j = Some meta"
  shows "poll_job env j unfinished w =
           (Inr unfinished,
            w\<lparr>jobs := dict_set j (dict_set ''state'' (JStr ''unknown'') meta) (jobs w),
              prov := p',
              trace := trace w @ [JobStatus j (Inr status), Log (JobState j (JStr ''unknown''))]\<rparr>)"
  using assms
  by (simp add: poll_job_def Let_def dict_get_def py_in_def emit_def)

theorem missing_state_is_unknown_witness:
  "job_status demo_env ''j2'' (prov (world0 [(''j2'', [(''state'', JStr ''submitted'')])])) =
     (Inr [(''raw'', JNull)], 1)
   \<and> poll_job demo_env ''j2'' [''j2''] (world0 [(''j2'', [(''state'', JStr ''submitted'')])]) =
      (Inr [''j2''],
       \<lparr>jobs = [(''j2'', [(''state'', JStr ''unknown'')])], disk = None, prov = 1, now = 0,
        trace = [JobStatus ''j2'' (Inr [(''raw'', JNull)]),
                 Log (JobState ''j2'' (JStr ''unknown''))]\<rparr>)"
  using missing_state_is_unknown [of demo_env "''j2''"
     "world0 [(''j2'', [(''state'', JStr ''submitted'')])]" "[(''raw'', JNull)]" 1
     "[(''state'', JStr ''submitted'')]" "[''j2'']"]
  by (simp add: demo_simps)

lemma download_result_keeps [simp]:
  "disk (download_result env j w) = disk w"
  "now (download_result env j w) = now w"
  "ledger_writes (trace (download_result env j w)) = ledger_writes (trace w)"
  by (simp_all add: download_result_def Let_def split: prod.splits sum.splits option.splits)

lemma download_result_record:
  assumes "map_of (jobs w) j = Some rec"
      and "fetch_result env j (as_path env (j @ ''_transcript.json'')) (prov w) = (fetched, p2)"
  shows "map_of (jobs (download_result env j w)) j =
           Some (case fetched of Inl exc \<Rightarrow> rec | Inr path \<Rightarrow> dict_set ''result'' (JStr path) rec)"
    and "case fetched of
           Inl exc \<Rightarrow> Log (FailedToFetch j exc) \<in> set (trace (download_result env j w))
         | Inr path \<Rightarrow> Log (Downloaded j path) \<in> set (trace (download_result env j w))"
    and "prov (download_result env j w) = p2"
  using assms
  by (auto simp: download_result_def Let_def map_of_dict_set split: sum.splits)

lemma terminal_state_cases:
  "state \<in> set (map JStr [''Succeeded'', ''Failed'', ''succeeded'', ''failed'']) \<Longrightarrow>
     py_in state [''Succeeded'', ''Failed'', ''succeeded'', ''failed''] = Inr True
     \<and> (\<exists>s. py_lower env state = Inr s)"
  by (auto simp: py_in_def)

text \<open>
  \<^bold>\<open>C3\<close>, as the claim states it, fails: a job reported as \<^verbatim>\<open>running\<close> has its state
  updated in memory, and at the end of the sweep the ledger file still does not exist.
\<close>

theorem persist_after_every_status_counterexample:
  "sweep demo_env [''j3''] [''j3''] (world0 [(''j3'', [(''state'', JStr ''submitted'')])]) =
     (Inr [''j3''],
      \<lparr>jobs = [(''j3'', [(''state'', JStr ''running'')])], disk = None, prov = 1, now = 0,
       trace = [JobStatus ''j3'' (Inr [(''state'', JStr ''running'')]),
                Log (JobState ''j3'' (JStr ''running''))]\<rparr>)
   \<and> ledger_writes (trace (snd (sweep demo_env [''j3''] [''j3'']
         (world0 [(''j3'', [(''state'', JStr ''submitted'')])])))) = []"
  by (simp add: demo_simps poll_job_def Let_def dict_get_def py_in_def emit_def)

text \<open>
  \<^bold>\<open>C3\<close>, amended. After a job's status is resolved its entry's state is updated in
  memory. The ledger file is written at that point exactly when the state is terminal
  (\<^verbatim>\<open>Succeeded\<close>, \<^verbatim>\<open>Failed\<close>, \<^verbatim>\<open>succeeded\<close> or \<^verbatim>\<open>failed\<close>): then the job leaves the pending set
  and the write is the last thing the step does, with the ledger as it then is, not
  batched until the end of the sweep (should the write raise, the failed attempt is the
  last thing the step does and its exception leaves \<^verbatim>\<open>poll\<close>). For any other state the
  file is left as it was.
\<close>

theorem ledger_written_iff_terminal:
  assumes "job_status env j (prov w) = (Inr status, p')"
      and "map_of (jobs w) j = Some meta"
      and "j \<in> set unfinished"
  shows "let state = dict_get status ''state'' (JStr ''unknown'');
             (r, w') = poll_job env j unfinished w
         in (\<exists>rec. map_of (jobs w') j = Some rec \<and> map_of rec ''state'' = Some state)
          \<and> (if state \<in> set (map JStr [''Succeeded'', ''Failed'', ''succeeded'', ''failed''])
             then (case write_text env (json_dumps env (jobs w')) (disk w) (prov w') of
                     None \<Rightarrow>
                       r = Inr (removeAll j unfinished)
                       \<and> disk w' = Some (json_dumps env (jobs w'))
                       \<and> last (trace w') = WriteLedger (json_dumps env (jobs w'))
                       \<and> ledger_writes (trace w') =
                           ledger_writes (trace w) @ [json_dumps env (jobs w')]
                   | Some (e, left) \<Rightarrow>
                       r = Inl e
                       \<and> disk w' = left
                       \<and> last (trace w') = WriteFailed (json_dumps env (jobs w')) e
                       \<and> ledger_writes (trace w') = ledger_writes (trace w))
             else disk w' = disk w \<and> ledger_writes (trace w') = ledger_writes (trace w))"
proof -
  define state where "state = dict_get status ''state'' (JStr ''unknown'')"
  define w3 where "w3 = emit (Log (JobState j state))
     (w\<lparr>prov := p', trace := trace w @ [JobStatus j (Inr status)],
        jobs := dict_set j (dict_set ''state'' state meta) (jobs w)\<rparr>)"
  have rec3: "map_of (jobs w3) j = Some (dict_set ''state'' state meta)"
    by (simp add: w3_def map_of_dict_set)
  show ?thesis
  proof (cases "state \<in> set (map JStr [''Succeeded'', ''Failed'', ''succeeded'', ''failed''])")
    case False
    then show ?thesis
      using assms
      by (auto simp: poll_job_def Let_def py_in_def emit_def map_of_dict_set state_def [symmetric]
               split: sum.splits)
  next
    case True
    then obtain s where s: "py_lower env state = Inr s"
      and inn: "py_in state [''Succeeded'', ''Failed'', ''succeeded'', ''failed''] = Inr True"
      using terminal_state_cases by blast
    define w4 where "w4 = (if startswith s ''succ'' then download_result env j w3 else w3)"
    have pj: "poll_job env j unfinished w =
                (case save_jobs env w4 of
                   (Some e, w5) \<Rightarrow> (Inl e, w5)
                 | (None, w5) \<Rightarrow> (Inr (removeAll j unfinished), w5))"
      using assms s inn
      by (simp add: poll_job_def Let_def emit_def state_def [symmetric] w4_def w3_def)
    obtain fetched p2
      where f: "fetch_result env j (as_path env (j @ ''_transcript.json'')) (prov w3) = (fetched, p2)"
      by (cases "fetch_result env j (as_path env (j @ ''_transcript.json'')) (prov w3)") auto
    have rec4: "\<exists>rec. map_of (jobs w4) j = Some rec \<and> map_of rec ''state'' = Some state"
      using download_result_record(1) [OF rec3 f] rec3
      by (auto simp: w4_def map_of_dict_set split: sum.splits)
    have keep: "disk w4 = disk w" "ledger_writes (trace w4) = ledger_writes (trace w)"
      by (simp_all add: w4_def w3_def)
    show ?thesis
    proof (cases "write_text env (json_dumps env (jobs w4)) (disk w4) (prov w4)")
      case None
      from save_jobs_written [OF None] rec4 keep True None show ?thesis
        by (simp add: pj state_def [symmetric])
    next
      case (Some a)
      obtain e left where a: "a = (e, left)" by (cases a)
      from save_jobs_failed [OF Some [unfolded a]] rec4 keep True Some a show ?thesis
        by (simp add: pj state_def [symmetric])
    qed
  qed
qed

theorem ledger_written_iff_terminal_witness:
  "poll_job demo_env ''j3'' [''j1'', ''j3'']
     \<lparr>jobs = [(''j1'', [(''state'', JStr ''running'')]), (''j3'', [(''state'', JStr ''running'')])],
      disk = None, prov = 1, now = 0, trace = []\<rparr> =
     (Inr [''j1''],
      \<lparr>jobs = [(''j1'', [(''state'', JStr ''running'')]), (''j3'', [(''state'', JStr ''failed'')])],
       disk = Some [(''j1'', [(''state'', JStr ''running'')]),
                    (''j3'', [(''state'', JStr ''failed'')])],
       prov = 2, now = 0,
       trace = [JobStatus ''j3'' (Inr [(''state'', JStr ''failed'')]),
                Log (JobState ''j3'' (JStr ''failed'')),
                WriteLedger [(''j1'', [(''state'', JStr ''running'')]),
                             (''j3'', [(''state'', JStr ''failed'')])]]\<rparr>)"
  using ledger_written_iff_terminal [of demo_env "''j3''"
     "\<lparr>jobs = [(''j1'', [(''state'', JStr ''running'')]), (''j3'', [(''state'', JStr ''running'')])],
       disk = None, prov = 1, now = 0, trace = []\<rparr>"
     "[(''state'', JStr ''failed'')]" 2 "[(''state'', JStr ''running'')]" "[''j1'', ''j3'']"]
  by (simp add: demo_simps poll_job_def Let_def dict_get_def py_in_def emit_def string_simps
        save_jobs_def)

section \<open>A failed download\<close>

lemma sweep_append:
  "sweep env (pre @ post) unfinished w =
     (case sweep env pre unfinished w of
        (Inl e, w') \<Rightarrow> (Inl e, w')
      | (Inr unfinished', w') \<Rightarrow> sweep env post unfinished' w')"
  by (induction pre arbitrary: unfinished w) (auto split: prod.splits sum.splits)

lemma poll_while_Suc:
  "snapshot \<noteq> [] \<Longrightarrow>
     poll_while (Suc fuel) env interval_sec snapshot w =
       after_sweep fuel env interval_sec (sweep env snapshot snapshot w)"
  by (cases snapshot) (simp_all add: after_sweep_def)

text \<open>
  \<^bold>\<open>C5\<close>. The \<^verbatim>\<open>while\<close> loop of \<^verbatim>\<open>poll\<close> starts a sweep over the pending jobs
  \<open>pre @ j # post\<close>; the sweep has reached \<open>j\<close>, which is reported as succeeded
  (\<^verbatim>\<open>succeeded\<close> or \<^verbatim>\<open>Succeeded\<close>), and the download is attempted. Whatever \<^verbatim>\<open>fetch_result\<close>
  does, the entry's state is the reported one. When \<^verbatim>\<open>fetch_result\<close> raises, the failure
  is logged and the entry's \<^verbatim>\<open>result\<close> field is what it was before (absent, if it was
  absent); when it returns a path, the field is that path. Then the job leaves the
  pending set, the ledger file is written with the ledger as it then is, the sweep goes
  on with the jobs \<open>post\<close>, and the loop, hence the invocation of \<^verbatim>\<open>poll\<close> that started it,
  is what the loop makes of that sweep: the exception of the download goes nowhere.
  Only a failure of the ledger write itself would leave \<^verbatim>\<open>poll\<close>.
\<close>

theorem download_failure_isolated:
  assumes "sweep env pre (pre @ j # post) w0 = (Inr unfinished, w)"
      and "job_status env j (prov w) = (Inr status, p1)"
      and "dict_get status ''state'' (JStr ''unknown'') = JStr s"
      and "s = ''succeeded'' \<or> s = ''Succeeded''"
      and "map_of (jobs w) j = Some meta"
      and "j \<in> set unfinished"
      and "fetch_result env j (as_path env (j @ ''_transcript.json'')) p1 = (fetched, p2)"
  shows "let (r, w') = poll_job env j unfinished w
         in (\<exists>rec. map_of (jobs w') j = Some rec
                \<and> map_of rec ''state'' = Some (JStr s)
                \<and> map_of rec ''result'' =
                    (case fetched of Inl exc \<Rightarrow> map_of meta ''result'' | Inr path \<Rightarrow> Some (JStr path)))
          \<and> (case fetched of
                Inl exc \<Rightarrow> Log (FailedToFetch j exc) \<in> set (drop (length (trace w)) (trace w'))
              | Inr path \<Rightarrow> Log (Downloaded j path) \<in> set (drop (length (trace w)) (trace w')))
          \<and> (case write_text env (json_dumps env (jobs w')) (disk w) p2 of
                None \<Rightarrow>
                  r = Inr (removeAll j unfinished)
                  \<and> disk w' = Some (json_dumps env (jobs w'))
                  \<and> last (trace w') = WriteLedger (json_dumps env (jobs w'))
                  \<and> sweep env (j # post) unfinished w = sweep env post (removeAll j unfinished) w'
                  \<and> poll_while (Suc fuel) env interval_sec (pre @ j # post) w0 =
                      after_sweep fuel env interval_sec
                        (sweep env post (removeAll j unfinished) w')
                  \<and> (unfinished_of (jobs w0) [] = Inr (pre @ j # post) \<longrightarrow>
                       poll (Suc fuel) env interval_sec w0 =
                         after_sweep fuel env interval_sec
                           (sweep env post (removeAll j unfinished) w'))
              | Some (e, left) \<Rightarrow>
                  r = Inl e
                  \<and> poll_while (Suc fuel) env interval_sec (pre @ j # post) w0 = (Some (Inl e), w')
                  \<and> (unfinished_of (jobs w0) [] = Inr (pre @ j # post) \<longrightarrow>
                       poll (Suc fuel) env interval_sec w0 = (Some (Inl e), w')))"
proof -
  define w3 where "w3 = emit (Log (JobState j (JStr s)))
     (w\<lparr>prov := p1, trace := trace w @ [JobStatus j (Inr status)],
        jobs := dict_set j (dict_set ''state'' (JStr s) meta) (jobs w)\<rparr>)"
  define w4 where "w4 = download_result env j w3"
  have rec3: "map_of (jobs w3) j = Some (dict_set ''state'' (JStr s) meta)"
    by (simp add: w3_def map_of_dict_set)
  have f: "fetch_result env j (as_path env (j @ ''_transcript.json'')) (prov w3) = (fetched, p2)"
    using assms(7) by (simp add: w3_def)
  have succ: "startswith (lower env s) ''succ''"
    using assms(4) by (auto simp: string_simps)
  have pj: "poll_job env j unfinished w =
              (case save_jobs env w4 of
                 (Some e, w5) \<Rightarrow> (Inl e, w5)
               | (None, w5) \<Rightarrow> (Inr (removeAll j unfinished), w5))"
    using assms(2,3,5,6) assms(4) succ
    by (auto simp: poll_job_def Let_def emit_def py_in_def w3_def w4_def)
  have "map_of (jobs w4) j =
          Some (case fetched of Inl exc \<Rightarrow> dict_set ''state'' (JStr s) meta
                | Inr path \<Rightarrow> dict_set ''result'' (JStr path) (dict_set ''state'' (JStr s) meta))"
    unfolding w4_def using download_result_record(1) [OF rec3 f] .
  then have rec: "\<exists>rec. map_of (jobs w4) j = Some rec
       \<and> map_of rec ''state'' = Some (JStr s)
       \<and> map_of rec ''result'' =
           (case fetched of Inl exc \<Rightarrow> map_of meta ''result'' | Inr path \<Rightarrow> Some (JStr path))"
    by (auto simp: map_of_dict_set split: sum.splits)
  have tr4: "\<exists>new. trace w4 = trace w @ new
       \<and> (case fetched of Inl exc \<Rightarrow> Log (FailedToFetch j exc) \<in> set new
           | Inr path \<Rightarrow> Log (Downloaded j path) \<in> set new)"
    using f rec3
    by (auto simp: w4_def w3_def download_result_def Let_def split: sum.splits)
  have keep: "disk w4 = disk w" "prov w4 = p2"
    using download_result_record(3) [OF rec3 f] by (simp_all add: w4_def w3_def)
  have loop: "poll_while (Suc fuel) env interval_sec (pre @ j # post) w0 =
                after_sweep fuel env interval_sec (sweep env (j # post) unfinished w)"
    using assms(1) by (simp add: poll_while_Suc sweep_append)
  have first: "unfinished_of (jobs w0) [] = Inr (pre @ j # post) \<Longrightarrow>
                 poll (Suc fuel) env interval_sec w0 =
                   poll_while (Suc fuel) env interval_sec (pre @ j # post) w0"
    by (simp add: poll_def)
  from tr4 obtain new where new: "trace w4 = trace w @ new"
    "case fetched of Inl exc \<Rightarrow> Log (FailedToFetch j exc) \<in> set new
     | Inr path \<Rightarrow> Log (Downloaded j path) \<in> set new"
    by blast
  show ?thesis
  proof (cases "write_text env (json_dumps env (jobs w4)) (disk w4) (prov w4)")
    case None
    note sv = save_jobs_written [OF None]
    have "poll_job env j unfinished w =
            (Inr (removeAll j unfinished),
             w4\<lparr>disk := Some (json_dumps env (jobs w4)),
                trace := trace w4 @ [WriteLedger (json_dumps env (jobs w4))]\<rparr>)"
      by (simp add: pj sv)
    with rec new keep None loop first show ?thesis
      by (auto simp: after_sweep_def split: sum.splits)
  next
    case (Some a)
    obtain e left where a: "a = (e, left)" by (cases a)
    note sv = save_jobs_failed [OF Some [unfolded a]]
    have "poll_job env j unfinished w =
            (Inl e, w4\<lparr>disk := left,
                       trace := trace w4 @ [WriteFailed (json_dumps env (jobs w4)) e]\<rparr>)"
      by (simp add: pj sv)
    with rec new keep Some a loop first show ?thesis
      by (auto simp: after_sweep_def split: sum.splits)
  qed
qed

theorem download_failure_isolated_witness:
  "poll (Suc 0) demo_env 30
     (world0 [(''j5'', [(''state'', JStr ''running'')]), (''j1'', [(''state'', JStr ''running'')])]) =
     (Some (Inr ()),
      \<lparr>jobs = [(''j5'', [(''state'', JStr ''succeeded'')]),
               (''j1'', [(''state'', JStr ''succeeded''), (''result'', JStr ''j1_transcript.json'')])],
       disk = Some [(''j5'', [(''state'', JStr ''succeeded'')]),
                    (''j1'', [(''state'', JStr ''succeeded''),
                              (''result'', JStr ''j1_transcript.json'')])],
       prov = 4, now = 0,
       trace = [JobStatus ''j5'' (Inr [(''state'', JStr ''succeeded'')]),
                Log (JobState ''j5'' (JStr ''succeeded'')),
                FetchResult ''j5'' ''j5_transcript.json'' (Inl (ProviderError ''no blob'')),
                Log (FailedToFetch ''j5'' (ProviderError ''no blob'')),
                WriteLedger [(''j5'', [(''state'', JStr ''succeeded'')]),
                             (''j1'', [(''state'', JStr ''running'')])],
                JobStatus ''j1'' (Inr [(''state'', JStr ''succeeded'')]),
                Log (JobState ''j1'' (JStr ''succeeded'')),
                FetchResult ''j1'' ''j1_transcript.json'' (Inr ''j1_transcript.json''),
                Log (Downloaded ''j1'' ''j1_transcript.json''),
                WriteLedger [(''j5'', [(''state'', JStr ''succeeded'')]),
                             (''j1'', [(''state'', JStr ''succeeded''),
                                       (''result'', JStr ''j1_transcript.json'')])]]\<rparr>)"
  using download_failure_isolated [of demo_env "[]" "''j5''" "[''j1'']"
     "world0 [(''j5'', [(''state'', JStr ''running'')]), (''j1'', [(''state'', JStr ''running'')])]"
     "[''j5'', ''j1'']"
     "world0 [(''j5'', [(''state'', JStr ''running'')]), (''j1'', [(''state'', JStr ''running'')])]"
     "[(''state'', JStr ''succeeded'')]" 1 "''succeeded''" "[(''state'', JStr ''running'')]"
     "Inl (ProviderError ''no blob'')" 2 0 30]
  by (simp add: demo_simps poll_job_def Let_def dict_get_def py_in_def emit_def string_simps
        save_jobs_def download_result_def keys_add_def after_sweep_def)

section \<open>Submitting a directory\<close>

lemma submit_observers_simps [simp]:
  "submit_calls [] = []"
  "submit_calls (e # t) = (case e of SubmitJob p l r \<Rightarrow> [p] | _ \<Rightarrow> []) @ submit_calls t"
  "submit_calls (t @ u) = submit_calls t @ submit_calls u"
  "issued_ids [] = []"
  "issued_ids (e # t) = (case e of SubmitJob p l (Inr j) \<Rightarrow> [j] | _ \<Rightarrow> []) @ issued_ids t"
  "issued_ids (t @ u) = issued_ids t @ issued_ids u"
  "write_failures [] = []"
  "write_failures (e # t) = (case e of WriteFailed c x \<Rightarrow> [x] | _ \<Rightarrow> []) @ write_failures t"
  "write_failures (t @ u) = write_failures t @ write_failures u"
  "submission_results [] = []"
  "submission_results (e # t) =
     (case e of SubmitJob p l (Inl x) \<Rightarrow> [Inl x] | WriteFailed c x \<Rightarrow> [Inl x]
      | Log (Submitted name j) \<Rightarrow> [Inr j] | _ \<Rightarrow> []) @ submission_results t"
  "submission_results (t @ u) = submission_results t @ submission_results u"
  "logged_submit_failures [] = []"
  "logged_submit_failures (e # t) =
     (case e of Log (FailedToSubmit name x) \<Rightarrow> [(name, x)] | _ \<Rightarrow> []) @ logged_submit_failures t"
  "logged_submit_failures (t @ u) = logged_submit_failures t @ logged_submit_failures u"
  by (simp_all add: submit_calls_def issued_ids_def write_failures_def submission_results_def
        logged_submit_failures_def)

lemma returned_ids_simps [simp]:
  "returned_ids [] = []"
  "returned_ids (r # rs) = (case r of Inl x \<Rightarrow> [] | Inr j \<Rightarrow> [j]) @ returned_ids rs"
  "returned_ids (rs @ ss) = returned_ids rs @ returned_ids ss"
  by (simp_all add: returned_ids_def)

lemma failures_of_simps [simp]:
  "failures_of [] = []"
  "failures_of ((p, r) # prs) =
     (case r of Inl x \<Rightarrow> [(path_name p, x)] | Inr j \<Rightarrow> []) @ failures_of prs"
  by (simp_all add: failures_of_def)

lemma submit_single_trace:
  assumes "submit_single env p language w = (r, w')"
  shows "\<exists>new. trace w' = trace w @ new
           \<and> submit_calls new = [resolve env p]
           \<and> submission_results new = [r]
           \<and> logged_submit_failures new = []
           \<and> (write_failures new = [] \<longrightarrow> issued_ids new = returned_ids [r])"
  using assms
  by (auto simp: submit_single_def save_jobs_def Let_def
           split: prod.splits sum.splits option.splits)

lemma submit_single_ledger:
  assumes "submit_single env p language w = (r, w')"
  shows "now w' = now w"
    and "\<forall>(k, rec) \<in> set (jobs w').
           (k, rec) \<in> set (jobs w) \<or> rec = new_record (resolve env p) (now w) language"
  using assms
  by (auto simp: submit_single_def save_jobs_def Let_def dest: in_dict_set
           split: prod.splits sum.splits option.splits)

lemma submit_batch_loop_trace:
  assumes "submit_batch_loop env language ps ids w = (ids', w')"
  shows "\<exists>new. trace w' = trace w @ new
           \<and> submit_calls new = map (resolve env) (filter (supported env) ps)
           \<and> length (submission_results new) = length (filter (supported env) ps)
           \<and> ids' = ids @ returned_ids (submission_results new)
           \<and> logged_submit_failures new =
               failures_of (zip (filter (supported env) ps) (submission_results new))
           \<and> (write_failures new = [] \<longrightarrow> issued_ids new = returned_ids (submission_results new))"
  using assms
proof (induction ps arbitrary: ids w)
  case Nil
  then show ?case by simp
next
  case (Cons p ps)
  show ?case
  proof (cases "supported env p")
    case False
    with Cons show ?thesis by simp
  next
    case True
    obtain r w1 where s1: "submit_single env p language w = (r, w1)"
      by (cases "submit_single env p language w") auto
    from submit_single_trace [OF s1] obtain n1 where n1:
      "trace w1 = trace w @ n1" "submit_calls n1 = [resolve env p]"
      "submission_results n1 = [r]" "logged_submit_failures n1 = []"
      "write_failures n1 = [] \<longrightarrow> issued_ids n1 = returned_ids [r]"
      by blast
    show ?thesis
    proof (cases r)
      case (Inr j)
      with Cons.prems True s1
      have "submit_batch_loop env language ps (ids @ [j]) w1 = (ids', w')" by simp
      from Cons.IH [OF this] obtain n2 where n2:
        "trace w' = trace w1 @ n2"
        "submit_calls n2 = map (resolve env) (filter (supported env) ps)"
        "length (submission_results n2) = length (filter (supported env) ps)"
        "ids' = (ids @ [j]) @ returned_ids (submission_results n2)"
        "logged_submit_failures n2 =
           failures_of (zip (filter (supported env) ps) (submission_results n2))"
        "write_failures n2 = [] \<longrightarrow> issued_ids n2 = returned_ids (submission_results n2)"
        by blast
      show ?thesis
        using n1 n2 Inr True by (intro exI [of _ "n1 @ n2"]) simp
    next
      case (Inl e)
      with Cons.prems True s1
      have "submit_batch_loop env language ps ids
              (emit (Log (FailedToSubmit (path_name p) e)) w1) = (ids', w')" by simp
      from Cons.IH [OF this] obtain n2 where n2:
        "trace w' = (trace w1 @ [Log (FailedToSubmit (path_name p) e)]) @ n2"
        "submit_calls n2 = map (resolve env) (filter (supported env) ps)"
        "length (submission_results n2) = length (filter (supported env) ps)"
        "ids' = ids @ returned_ids (submission_results n2)"
        "logged_submit_failures n2 =
           failures_of (zip (filter (supported env) ps) (submission_results n2))"
        "write_failures n2 = [] \<longrightarrow> issued_ids n2 = returned_ids (submission_results n2)"
        by auto
      show ?thesis
        using n1 n2 Inl True
        by (intro exI [of _ "n1 @ Log (FailedToSubmit (path_name p) e) # n2"]) simp
    qed
  qed
qed

lemma submit_batch_loop_ledger:
  assumes "submit_batch_loop env language ps ids w = (ids', w')"
  shows "now w' = now w
       \<and> (\<forall>(k, rec) \<in> set (jobs w').
             (k, rec) \<in> set (jobs w)
             \<or> (\<exists>q \<in> set ps. supported env q \<and> rec = new_record (resolve env q) (now w) language))"
  using assms
proof (induction ps arbitrary: ids w)
  case Nil
  then show ?case by auto
next
  case (Cons p ps)
  show ?case
  proof (cases "supported env p")
    case False
    with Cons.prems have "submit_batch_loop env language ps ids w = (ids', w')" by simp
    from Cons.IH [OF this] show ?thesis by auto
  next
    case True
    obtain r w1 where s1: "submit_single env p language w = (r, w1)"
      by (cases "submit_single env p language w") auto
    note l1 = submit_single_ledger [OF s1]
    obtain ids1 w2 where rest: "submit_batch_loop env language ps ids1 w2 = (ids', w')"
      and w2: "now w2 = now w1" "jobs w2 = jobs w1"
      using Cons.prems True s1 by (cases r) auto
    from Cons.IH [OF rest] have
      "now w' = now w2"
      "\<forall>(k, rec) \<in> set (jobs w').
          (k, rec) \<in> set (jobs w2)
          \<or> (\<exists>q \<in> set ps. supported env q \<and> rec = new_record (resolve env q) (now w2) language)"
      by auto
    with l1 w2 True show ?thesis by fastforce
  qed
qed



lemma submit_batch_loop_append:
  "submit_batch_loop env language (ps @ qs) ids w =
     (case submit_batch_loop env language ps ids w of
        (ids', w') \<Rightarrow> submit_batch_loop env language qs ids' w')"
  by (induction ps arbitrary: ids w) (auto split: prod.splits sum.splits)

text \<open>
  \<^bold>\<open>C9\<close>, as the claim states it, fails: \<^verbatim>\<open>readme.txt\<close> is enumerated and its extension is
  not a supported one, yet it is passed to \<^verbatim>\<open>submit_job\<close> and gets a ledger entry,
  because \<^verbatim>\<open>link.mp3\<close> is enumerated too and \<^verbatim>\<open>submit_single\<close> resolves it to \<^verbatim>\<open>readme.txt\<close>.
\<close>

theorem unsupported_never_submitted_counterexample:
  "\<not> supported symlink_env ''/m/readme.txt''
   \<and> rglob symlink_env (resolve symlink_env ''/m'') = [''/m/link.mp3'', ''/m/readme.txt'']
   \<and> submit_batch symlink_env ''/m'' ''en-US'' (world0 []) =
       ([''job-readme.txt''],
        \<lparr>jobs = [(''job-readme.txt'',
                   [(''file'', JStr ''/m/readme.txt''), (''submitted'', JNum 0),
                    (''language'', JStr ''en-US''), (''state'', JStr ''submitted'')])],
         disk = Some [(''job-readme.txt'',
                       [(''file'', JStr ''/m/readme.txt''), (''submitted'', JNum 0),
                        (''language'', JStr ''en-US''), (''state'', JStr ''submitted'')])],
         prov = 1, now = 0,
         trace = [SubmitJob ''/m/readme.txt'' ''en-US'' (Inr ''job-readme.txt''),
                  WriteLedger [(''job-readme.txt'',
                                [(''file'', JStr ''/m/readme.txt''), (''submitted'', JNum 0),
                                 (''language'', JStr ''en-US''), (''state'', JStr ''submitted'')])],
                  Log (Submitted ''readme.txt'' ''job-readme.txt'')]\<rparr>)"
  by (simp add: symlink_env_def demo_simps submit_batch_def supported_def path_suffix_def
        path_name_def string_simps submit_single_def Let_def save_jobs_def emit_def
        new_record_def)

text \<open>
  \<^bold>\<open>C9\<close>, amended. A file that \<^verbatim>\<open>rglob\<close> enumerates and whose extension is not a supported
  one is skipped at its turn, silently: the returned ids and the whole world after the
  batch (ledger in memory and on disk, provider calls, log records) are those of the
  same enumeration without that entry. The paths passed to \<^verbatim>\<open>submit_job\<close> are exactly the
  resolved paths of the entries with a supported extension, and every ledger record
  that was not there before the batch is the record of one of these entries. So the file
  reaches the provider or the ledger only when an entry with a supported extension
  resolves to it.
\<close>

theorem unsupported_entry_is_skipped:
  assumes "\<not> supported env p" and "rglob env (resolve env directory) = ps @ p # qs"
  shows "submit_batch env directory language w = submit_batch_loop env language (ps @ qs) [] w
       \<and> (let (ids, w') = submit_batch env directory language w
          in submit_calls (drop (length (trace w)) (trace w')) =
               map (resolve env) (filter (supported env) (ps @ qs))
           \<and> (\<forall>(k, rec) \<in> set (jobs w').
                 (k, rec) \<in> set (jobs w)
                 \<or> (\<exists>q \<in> set (ps @ qs). supported env q
                       \<and> rec = new_record (resolve env q) (now w) language)))"
proof -
  have skip: "submit_batch env directory language w = submit_batch_loop env language (ps @ qs) [] w"
    using assms by (simp add: submit_batch_def submit_batch_loop_append split: prod.splits)
  obtain ids w' where b: "submit_batch_loop env language (ps @ qs) [] w = (ids, w')"
    by (cases "submit_batch_loop env language (ps @ qs) [] w") auto
  from submit_batch_loop_trace [OF b] obtain new where
    "trace w' = trace w @ new"
    "submit_calls new = map (resolve env) (filter (supported env) (ps @ qs))"
    by auto
  then have calls: "submit_calls (drop (length (trace w)) (trace w')) =
                      map (resolve env) (filter (supported env) (ps @ qs))"
    by simp
  from submit_batch_loop_ledger [OF b] calls skip b show ?thesis
    by simp
qed

theorem unsupported_entry_is_skipped_witness:
  "submit_batch demo_env ''/m'' ''en-US'' (world0 []) =
     submit_batch_loop demo_env ''en-US'' [''/m/a.mp4'', ''/m/bad.wav'', ''/m/B.MP3''] [] (world0 [])
   \<and> submit_calls (trace (snd (submit_batch demo_env ''/m'' ''en-US'' (world0 [])))) =
       [''/m/a.mp4'', ''/m/bad.wav'', ''/m/B.MP3'']"
  using unsupported_entry_is_skipped [of demo_env "''/m/notes.txt''" "''/m''"
     "[''/m/a.mp4'']" "[''/m/bad.wav'', ''/m/B.MP3'']" "''en-US''" "world0 []"]
  by (simp add: demo_simps submit_batch_def supported_def path_suffix_def path_name_def
        string_simps submit_single_def Let_def save_jobs_def emit_def)

section \<open>The state that is stored\<close>

lemmas run_simps = demo_simps poll_def keys_add_def poll_job_def Let_def dict_get_def py_in_def
  emit_def string_simps save_jobs_def download_result_def sleep_def

text \<open>
  \<^bold>\<open>C2\<close>. The Azure provider passes the service's \<^verbatim>\<open>status\<close> on as it is, and \<^verbatim>\<open>poll\<close>
  stores what the provider returns: for the answer \<^verbatim>\<open>{"status": "Succeeded"}\<close> the
  ledger entry's state is \<^verbatim>\<open>Succeeded\<close>, which is none of \<^verbatim>\<open>queued\<close>, \<^verbatim>\<open>running\<close>,
  \<^verbatim>\<open>succeeded\<close>, \<^verbatim>\<open>failed\<close>.
\<close>

theorem vendor_status_stored_as_reported:
  "poll (Suc 0) azure_env 30 (world0 [(''j1'', [(''state'', JStr ''submitted'')])]) =
     (Some (Inr ()),
      \<lparr>jobs = [(''j1'', [(''state'', JStr ''Succeeded''),
                         (''result'', JStr ''j1_transcript.json'')])],
       disk = Some [(''j1'', [(''state'', JStr ''Succeeded''),
                              (''result'', JStr ''j1_transcript.json'')])],
       prov = 2, now = 0,
       trace = [JobStatus ''j1'' (Inr [(''state'', JStr ''Succeeded''),
                                       (''raw'', JObj [(''status'', JStr ''Succeeded'')])]),
                Log (JobState ''j1'' (JStr ''Succeeded'')),
                FetchResult ''j1'' ''j1_transcript.json'' (Inr ''j1_transcript.json''),
                Log (Downloaded ''j1'' ''j1_transcript.json''),
                WriteLedger [(''j1'', [(''state'', JStr ''Succeeded''),
                                       (''result'', JStr ''j1_transcript.json'')])]]\<rparr>)
   \<and> JStr ''Succeeded'' \<notin> set (map JStr [''queued'', ''running'', ''succeeded'', ''failed''])"
  by (simp add: azure_env_def azure_job_status_def run_simps)

text \<open>
  What follows from it: the test that computes the pending set knows the lower-case
  states only, so a job stored as \<^verbatim>\<open>Succeeded\<close> is pending again in the next invocation
  of \<^verbatim>\<open>poll\<close>, which queries it and downloads its result a second time.
\<close>

lemma stored_Succeeded_is_polled_again:
  "provider_calls_about ''j1''
     (trace (polls azure_env [(Suc 0, 30), (Suc 0, 30)]
        (world0 [(''j1'', [(''state'', JStr ''submitted'')])]))) =
     [JobStatus ''j1'' (Inr [(''state'', JStr ''Succeeded''),
                             (''raw'', JObj [(''status'', JStr ''Succeeded'')])]),
      FetchResult ''j1'' ''j1_transcript.json'' (Inr ''j1_transcript.json''),
      JobStatus ''j1'' (Inr [(''state'', JStr ''Succeeded''),
                             (''raw'', JObj [(''status'', JStr ''Succeeded'')])]),
      FetchResult ''j1'' ''j1_transcript.json'' (Inr ''j1_transcript.json'')]"
  by (simp add: azure_env_def azure_job_status_def run_simps provider_calls_about_def)

section \<open>Jobs that are finished\<close>

text \<open>
  \<^bold>\<open>C1\<close>. The loop of \<^verbatim>\<open>poll\<close> takes \<^verbatim>\<open>Succeeded\<close> and \<^verbatim>\<open>Failed\<close> for terminal states as
  well as \<^verbatim>\<open>succeeded\<close> and \<^verbatim>\<open>failed\<close>, but the test that computes the pending set of an
  invocation knows the lower-case pair only. A job that the first invocation finished
  as \<^verbatim>\<open>Failed\<close> is therefore pending in the second one, which queries the provider about
  it again and overwrites its state with the answer: here the state goes from
  \<^verbatim>\<open>Failed\<close> to \<^verbatim>\<open>running\<close>.
\<close>

theorem finished_job_is_pending_again:
  "jobs (polls relapsing_env [(Suc 0, 30)] (world0 [(''j1'', [(''state'', JStr ''submitted'')])])) =
     [(''j1'', [(''state'', JStr ''Failed'')])]
   \<and> jobs (polls relapsing_env [(Suc 0, 30), (Suc 0, 30)]
        (world0 [(''j1'', [(''state'', JStr ''submitted'')])])) =
     [(''j1'', [(''state'', JStr ''running'')])]
   \<and> provider_calls_about ''j1''
       (trace (polls relapsing_env [(Suc 0, 30), (Suc 0, 30)]
          (world0 [(''j1'', [(''state'', JStr ''submitted'')])]))) =
     [JobStatus ''j1'' (Inr [(''state'', JStr ''Failed'')]),
      JobStatus ''j1'' (Inr [(''state'', JStr ''running'')])]"
  by (simp add: relapsing_env_def run_simps provider_calls_about_def)

text \<open>
  \<^bold>\<open>C8\<close>. For the same reason a ledger whose only job is finished, stored as the first
  invocation left it, does not make \<^verbatim>\<open>poll\<close> return at once: the job is queried, its
  result is downloaded and the ledger file is written again.
\<close>

theorem finished_ledger_is_polled:
  "poll (Suc 0) azure_env 30
     \<lparr>jobs = [(''j1'', [(''state'', JStr ''Succeeded''),
                        (''result'', JStr ''j1_transcript.json'')])],
      disk = Some [(''j1'', [(''state'', JStr ''Succeeded''),
                             (''result'', JStr ''j1_transcript.json'')])],
      prov = 2, now = 0, trace = []\<rparr> =
     (Some (Inr ()),
      \<lparr>jobs = [(''j1'', [(''state'', JStr ''Succeeded''),
                         (''result'', JStr ''j1_transcript.json'')])],
       disk = Some [(''j1'', [(''state'', JStr ''Succeeded''),
                              (''result'', JStr ''j1_transcript.json'')])],
       prov = 4, now = 0,
       trace = [JobStatus ''j1'' (Inr [(''state'', JStr ''Succeeded''),
                                       (''raw'', JObj [(''status'', JStr ''Succeeded'')])]),
                Log (JobState ''j1'' (JStr ''Succeeded'')),
                FetchResult ''j1'' ''j1_transcript.json'' (Inr ''j1_transcript.json''),
                Log (Downloaded ''j1'' ''j1_transcript.json''),
                WriteLedger [(''j1'', [(''state'', JStr ''Succeeded''),
                                       (''result'', JStr ''j1_transcript.json'')])]]\<rparr>)"
  by (simp add: azure_env_def azure_job_status_def run_simps)

section \<open>What the lower-case states guarantee\<close>

text \<open>
  The pending set of an invocation is computed with the states \<^verbatim>\<open>succeeded\<close> and
  \<^verbatim>\<open>failed\<close>, in exactly this spelling. For a ledger whose entries all have one of the two,
  \<^verbatim>\<open>poll\<close> returns at once, without a provider call, a sleep or a write.
\<close>

lemma unfinished_of_all_terminal:
  assumes "\<forall>(jid, meta) \<in> set l.
             dict_get meta ''state'' JNull \<in> {JStr ''succeeded'', JStr ''failed''}"
  shows "unfinished_of l acc = Inr acc"
  using assms by (induction l arbitrary: acc) (auto simp: py_in_def)

lemma poll_nothing_pending_lower_case:
  assumes "\<forall>(jid, meta) \<in> set (jobs w).
             dict_get meta ''state'' JNull \<in> {JStr ''succeeded'', JStr ''failed''}"
  shows "poll fuel env interval_sec w =
           (Some (Inr ()), w\<lparr>trace := trace w @ [Log NoUnfinishedJobs]\<rparr>)"
  using unfinished_of_all_terminal [OF assms, of "[]"]
  by (simp add: poll_def emit_def)

text \<open>
  A job whose stored state is one of the two is in no pending set: the steps of a sweep
  touch the jobs of the snapshot only.
\<close>

lemma provider_calls_about_simps [simp]:
  "provider_calls_about j [] = []"
  "provider_calls_about j (e # t) =
     (if about_job j e then e # provider_calls_about j t else provider_calls_about j t)"
  "provider_calls_about j (t @ u) = provider_calls_about j t @ provider_calls_about j u"
  by (simp_all add: provider_calls_about_def)

lemma download_result_other:
  assumes "k \<noteq> j"
  shows "map_of (jobs (download_result env k w)) j = map_of (jobs w) j"
    and "provider_calls_about j (trace (download_result env k w)) = provider_calls_about j (trace w)"
  using assms
  by (auto simp: download_result_def Let_def map_of_dict_set
           split: prod.splits sum.splits option.splits)

lemma download_result_distinct:
  "distinct (map fst (jobs w)) \<Longrightarrow> distinct (map fst (jobs (download_result env k w)))"
  by (auto simp: download_result_def Let_def distinct_dict_set
           split: prod.splits sum.splits option.splits)

lemma poll_job_other:
  assumes "k \<noteq> j" and "poll_job env k unfinished w = (r, w')"
  shows "map_of (jobs w') j = map_of (jobs w) j"
    and "provider_calls_about j (trace w') = provider_calls_about j (trace w)"
  using assms
  by (auto simp: poll_job_def save_jobs_def Let_def map_of_dict_set download_result_other
           split: prod.splits sum.splits option.splits bool.splits if_splits)

lemma poll_job_distinct:
  assumes "distinct (map fst (jobs w))" and "poll_job env k unfinished w = (r, w')"
  shows "distinct (map fst (jobs w'))"
  using assms
  by (auto simp: poll_job_def save_jobs_def Let_def distinct_dict_set download_result_distinct
           split: prod.splits sum.splits option.splits bool.splits if_splits)

lemma sweep_other:
  assumes "j \<notin> set js" and "sweep env js unfinished w = (r, w')"
  shows "map_of (jobs w') j = map_of (jobs w) j
       \<and> provider_calls_about j (trace w') = provider_calls_about j (trace w)"
  using assms
proof (induction js arbitrary: unfinished w)
  case Nil
  then show ?case by simp
next
  case (Cons k ks)
  obtain r1 w1 where s1: "poll_job env k unfinished w = (r1, w1)"
    by (cases "poll_job env k unfinished w") auto
  from Cons.prems(1) have kj: "k \<noteq> j" and ks: "j \<notin> set ks" by auto
  note step = poll_job_other [OF kj s1]
  show ?case
  proof (cases r1)
    case (Inl e)
    with Cons.prems(2) s1 step show ?thesis by simp
  next
    case (Inr unfinished')
    with Cons.prems(2) s1 have "sweep env ks unfinished' w1 = (r, w')" by simp
    from Cons.IH [OF ks this] step show ?thesis by simp
  qed
qed

lemma sweep_distinct:
  assumes "distinct (map fst (jobs w))" and "sweep env js unfinished w = (r, w')"
  shows "distinct (map fst (jobs w'))"
  using assms
proof (induction js arbitrary: unfinished w)
  case Nil
  then show ?case by simp
next
  case (Cons k ks)
  obtain r1 w1 where s1: "poll_job env k unfinished w = (r1, w1)"
    by (cases "poll_job env k unfinished w") auto
  from poll_job_distinct [OF Cons.prems(1) s1] Cons.IH Cons.prems(2) s1
  show ?case by (cases r1) auto
qed

lemma poll_job_pending:
  assumes "poll_job env k unfinished w = (Inr unfinished', w')"
  shows "set unfinished' \<subseteq> set unfinished"
  using assms
  by (auto simp: poll_job_def save_jobs_def Let_def
           split: prod.splits sum.splits option.splits bool.splits if_splits)

lemma sweep_pending:
  assumes "sweep env js unfinished w = (Inr unfinished', w')"
  shows "set unfinished' \<subseteq> set unfinished"
  using assms
proof (induction js arbitrary: unfinished w)
  case Nil
  then show ?case by simp
next
  case (Cons k ks)
  obtain r1 w1 where s1: "poll_job env k unfinished w = (r1, w1)"
    by (cases "poll_job env k unfinished w") auto
  show ?case
  proof (cases r1)
    case (Inl e)
    with Cons.prems s1 show ?thesis by simp
  next
    case (Inr u1)
    with Cons.prems s1 have "sweep env ks u1 w1 = (Inr unfinished', w')" by simp
    from Cons.IH [OF this] poll_job_pending [of env k unfinished w u1 w1] s1 Inr
    show ?thesis by auto
  qed
qed

lemma sleep_keeps:
  assumes "sleep env secs w = Inr w'"
  shows "jobs w' = jobs w" and "trace w' = trace w @ [Sleep secs]"
  using assms by (auto simp: sleep_def split: if_splits)

lemma poll_while_other:
  assumes "j \<notin> set unfinished" and "poll_while fuel env interval_sec unfinished w = (r, w')"
  shows "map_of (jobs w') j = map_of (jobs w) j
       \<and> provider_calls_about j (trace w') = provider_calls_about j (trace w)"
  using assms
proof (induction fuel arbitrary: unfinished w)
  case 0
  then show ?case by (cases unfinished) auto
next
  case (Suc fuel)
  show ?case
  proof (cases unfinished)
    case Nil
    with Suc.prems show ?thesis by simp
  next
    case (Cons k ks)
    obtain r1 w1 where s1: "sweep env unfinished unfinished w = (r1, w1)"
      by (cases "sweep env unfinished unfinished w") auto
    note step = sweep_other [OF Suc.prems(1) s1]
    show ?thesis
    proof (cases r1)
      case (Inl e)
      with Suc.prems(2) s1 Cons step show ?thesis by simp
    next
      case (Inr u1)
      from sweep_pending [of env unfinished unfinished w u1 w1] s1 Inr Suc.prems(1)
      have j1: "j \<notin> set u1" by auto
      show ?thesis
      proof (cases "u1 = []")
        case True
        with Suc.prems(2) s1 Cons Inr step show ?thesis by simp
      next
        case False
        show ?thesis
        proof (cases "sleep env interval_sec w1")
          case (Inl e)
          with False Suc.prems(2) s1 Cons Inr step show ?thesis by simp
        next
          case slept: (Inr w2)
          from slept False Suc.prems(2) s1 Cons Inr
          have "poll_while fuel env interval_sec u1 w2 = (r, w')" by simp
          from Suc.IH [OF j1 this] step sleep_keeps [OF slept] show ?thesis by simp
        qed
      qed
    qed
  qed
qed

lemma poll_while_distinct:
  assumes "distinct (map fst (jobs w))" and "poll_while fuel env interval_sec unfinished w = (r, w')"
  shows "distinct (map fst (jobs w'))"
  using assms
proof (induction fuel arbitrary: unfinished w)
  case 0
  then show ?case by (cases unfinished) auto
next
  case (Suc fuel)
  show ?case
  proof (cases unfinished)
    case Nil
    with Suc.prems show ?thesis by simp
  next
    case (Cons k ks)
    obtain r1 w1 where s1: "sweep env unfinished unfinished w = (r1, w1)"
      by (cases "sweep env unfinished unfinished w") auto
    note d1 = sweep_distinct [OF Suc.prems(1) s1]
    show ?thesis
    proof (cases r1)
      case (Inl e)
      with Suc.prems(2) s1 Cons d1 show ?thesis by simp
    next
      case (Inr u1)
      show ?thesis
      proof (cases "u1 = []")
        case True
        with Suc.prems(2) s1 Cons Inr d1 show ?thesis by simp
      next
        case False
        show ?thesis
        proof (cases "sleep env interval_sec w1")
          case (Inl e)
          with False Suc.prems(2) s1 Cons Inr d1 show ?thesis by simp
        next
          case slept: (Inr w2)
          from slept False Suc.prems(2) s1 Cons Inr
          have "poll_while fuel env interval_sec u1 w2 = (r, w')" by simp
          moreover have "distinct (map fst (jobs w2))"
            using d1 sleep_keeps(1) [OF slept] by simp
          ultimately show ?thesis using Suc.IH by blast
        qed
      qed
    qed
  qed
qed

lemma unfinished_of_sound:
  assumes "unfinished_of l acc = Inr unfinished" and "k \<in> set unfinished"
  shows "k \<in> set acc
       \<or> (\<exists>m. (k, m) \<in> set l \<and> dict_get m ''state'' JNull \<notin> {JStr ''succeeded'', JStr ''failed''})"
  using assms
proof (induction l arbitrary: acc)
  case Nil
  then show ?case by simp
next
  case (Cons a l)
  obtain jid meta where a: "a = (jid, meta)" by (cases a)
  from Cons.prems(1) a obtain b where
    b: "py_in (dict_get meta ''state'' JNull) [''succeeded'', ''failed''] = Inr b"
    and rest: "unfinished_of l (if b then acc else keys_add jid acc) = Inr unfinished"
    by (auto split: sum.splits)
  from Cons.IH [OF rest Cons.prems(2)] show ?case
  proof
    assume "k \<in> set (if b then acc else keys_add jid acc)"
    then show ?thesis
      using b a by (auto simp: keys_add_def py_in_def split: if_splits)
  next
    assume "\<exists>m. (k, m) \<in> set l \<and> dict_get m ''state'' JNull \<notin> {JStr ''succeeded'', JStr ''failed''}"
    then show ?thesis by auto
  qed
qed

lemma poll_terminal_untouched:
  assumes "distinct (map fst (jobs w))"
      and "map_of (jobs w) j = Some meta"
      and "map_of meta ''state'' = Some (JStr s)"
      and "s = ''succeeded'' \<or> s = ''failed''"
      and "poll fuel env interval_sec w = (r, w')"
  shows "map_of (jobs w') j = Some meta
       \<and> provider_calls_about j (trace w') = provider_calls_about j (trace w)
       \<and> distinct (map fst (jobs w'))"
proof (cases "unfinished_of (jobs w) []")
  case (Inl e)
  with assms show ?thesis by (simp add: poll_def)
next
  case (Inr unfinished)
  have "j \<notin> set unfinished"
  proof
    assume "j \<in> set unfinished"
    from unfinished_of_sound [OF Inr this] obtain m where
      m: "(j, m) \<in> set (jobs w)" "dict_get m ''state'' JNull \<notin> {JStr ''succeeded'', JStr ''failed''}"
      by auto
    from m(1) assms(1,2) have "m = meta" by simp
    with m(2) assms(3,4) show False by (auto simp: dict_get_def)
  qed
  show ?thesis
  proof (cases "unfinished = []")
    case True
    with Inr assms show ?thesis by (auto simp: poll_def)
  next
    case False
    with Inr assms(5) have pw: "poll_while fuel env interval_sec unfinished w = (r, w')"
      by (simp add: poll_def)
    from poll_while_other [OF \<open>j \<notin> set unfinished\<close> pw] poll_while_distinct [OF assms(1) pw] assms(2)
    show ?thesis by simp
  qed
qed

text \<open>
  Over any sequence of invocations, whatever the provider answers and whether an
  invocation returns, raises or is cut off, such a job keeps its record and no provider
  call is made about it. The ledger is a dictionary, so its keys are distinct.
\<close>

lemma lower_case_terminal_jobs_stay:
  assumes "distinct (map fst (jobs w))"
      and "map_of (jobs w) j = Some meta"
      and "map_of meta ''state'' = Some (JStr s)"
      and "s = ''succeeded'' \<or> s = ''failed''"
  shows "map_of (jobs (polls env runs w)) j = Some meta
       \<and> provider_calls_about j (trace (polls env runs w)) = provider_calls_about j (trace w)"
  using assms(1,2)
proof (induction runs arbitrary: w)
  case Nil
  then show ?case by simp
next
  case (Cons run runs)
  obtain fuel interval_sec where run: "run = (fuel, interval_sec)" by (cases run)
  obtain r w1 where p: "poll fuel env interval_sec w = (r, w1)"
    by (cases "poll fuel env interval_sec w") auto
  from poll_terminal_untouched [OF Cons.prems(1,2) assms(3,4) p]
  have w1: "map_of (jobs w1) j = Some meta"
    "provider_calls_about j (trace w1) = provider_calls_about j (trace w)"
    "distinct (map fst (jobs w1))"
    by auto
  from Cons.IH [OF w1(3) w1(1)] w1(2) run p show ?case by simp
qed


end
